theory Spec2Isabelle
  imports Main "HOL-Library.AList"
begin

section \<open>Values, objects and dictionaries\<close>

text \<open>
  The store keeps arbitrary Python objects. What the code observes of an object is its
  identity (\<^verbatim>\<open>val is variable\<close> in \<^verbatim>\<open>get_variable_name\<close>) and, through the
  serializer, its content. An object is therefore a pair of an identity and a content;
  \<^verbatim>\<open>is\<close> compares identities only. \<open>VOther\<close> stands for any other content that the
  serializer accepts (a float, an instance of a class, a module, a function), named by a
  number. \<open>VHandle\<close> stands for a content at which the serializer raises
  \<^verbatim>\<open>PicklingError\<close>, \<open>VGenerator\<close> for a generator, at which it raises
  \<^verbatim>\<open>TypeError\<close>.
\<close>

datatype pyval =
  VNone | VInt int | VStr string | VList "pyval list" | VOther nat
  | VHandle nat | VGenerator nat

datatype pyobj = Obj (oid: nat) (val: pyval)

definition is_same :: "pyobj \<Rightarrow> pyobj \<Rightarrow> bool" where
  "is_same a b = (oid a = oid b)"

text \<open>
  A Python \<^verbatim>\<open>dict\<close> with string keys is an association list with distinct keys, in
  insertion order: \<^verbatim>\<open>d[k] = v\<close> is \<open>AList.update k v d\<close> (in place when the key is
  there, appended otherwise), \<^verbatim>\<open>del d[k]\<close> is \<open>AList.delete k d\<close>, \<^verbatim>\<open>k in d\<close> is
  \<open>has_key d k\<close>.
\<close>

type_synonym dict = "(string \<times> pyobj) list"

definition has_key :: "(string \<times> 'v) list \<Rightarrow> string \<Rightarrow> bool" where
  "has_key d k = (map_of d k \<noteq> None)"

section \<open>Exceptions, outcomes and the log\<close>

datatype exc_class =
  ValueError | KeyError | TypeError | AttributeError | EOFError
  | OSError | FileNotFoundError | PicklingError | UnpicklingError

datatype exc = Exc (cls: exc_class) (msg: string)

datatype 'a outcome = Returned 'a | Raised exc

text \<open>The part of Python's exception hierarchy that the \<^verbatim>\<open>except\<close> clauses can see.\<close>

fun subclass_of :: "exc_class \<Rightarrow> exc_class \<Rightarrow> bool" where
  "subclass_of FileNotFoundError OSError = True"
| "subclass_of c d = (c = d)"

definition caught_by :: "exc_class list \<Rightarrow> exc \<Rightarrow> bool" where
  "caught_by cs e = list_ex (subclass_of (cls e)) cs"

text \<open>\<^verbatim>\<open>f"'{name}'"\<close>: the name between single quotes.\<close>

definition quoted :: "string \<Rightarrow> string" where
  "quoted name = CHR 0x27 # name @ [CHR 0x27]"

datatype level = WARNING | ERROR

datatype log_record = LogRecord level string "exc option"

section \<open>The file system and the process-wide state\<close>

text \<open>
  A file holds the pickle of a dictionary, the pickle of some other value, the first bytes
  of a pickle whose writing was interrupted, or bytes that are no pickle at all.
\<close>

datatype blob =
  PickledDict "(string \<times> pyval) list" | PickledOther pyval | Truncated | Corrupt

text \<open>
  \<open>unsaved_files\<close> is the class attribute \<^verbatim>\<open>VariableDb.unsaved_files\<close>: a set in
  \<^verbatim>\<open>variabledb/core.py\<close>, a list in \<^verbatim>\<open>variabledb.py\<close>. \<open>unwritable\<close> holds the
  paths on which \<^verbatim>\<open>open(path, "wb")\<close> raises \<^verbatim>\<open>OSError\<close>; \<open>module_globals\<close> is the
  module's \<^verbatim>\<open>globals()\<close>; \<open>next_oid\<close> is the identity of the next object the
  deserializer creates.
\<close>

record 'r world =
  unsaved_files :: 'r
  files :: "string \<rightharpoonup> blob"
  unwritable :: "string set"
  module_globals :: dict
  next_oid :: nat
  logged :: "log_record list"

record store =
  filename :: string
  data :: dict
  scope :: dict

type_synonym 'r result = "unit outcome \<times> store \<times> 'r world"

definition logging_error :: "string \<Rightarrow> exc option \<Rightarrow> 'r world \<Rightarrow> 'r world" where
  "logging_error m e w = w\<lparr>logged := logged w @ [LogRecord ERROR m e]\<rparr>"

text \<open>
  \<^verbatim>\<open>try: body  except (cs) as e: logging.error(f"{m}{e}")\<close>: an exception of one of
  the classes \<open>cs\<close> is logged and the method returns \<^verbatim>\<open>None\<close>; any other exception
  propagates. What the body did before it raised stays done.
\<close>

definition except_log :: "exc_class list \<Rightarrow> string \<Rightarrow> 'r result \<Rightarrow> 'r result" where
  "except_log cs m r =
     (case r of
        (Raised e, s, w) \<Rightarrow>
          if caught_by cs e then (Returned (), s, logging_error m (Some e) w)
          else (Raised e, s, w)
      | (Returned u, s, w) \<Rightarrow> (Returned u, s, w))"

section \<open>The serializer\<close>

fun picklable :: "pyval \<Rightarrow> bool" where
  "picklable (VHandle h) = False"
| "picklable (VGenerator g) = False"
| "picklable (VList vs) = list_all picklable vs"
| "picklable v = True"

text \<open>
  The exception that the serializer raises at a content, if any: the one of the first
  part, in order, that it cannot pickle.
\<close>

fun pickle_error :: "pyval \<Rightarrow> exc option" where
  "pickle_error (VHandle h) = Some (Exc PicklingError ''cannot pickle object'')"
| "pickle_error (VGenerator g) = Some (Exc TypeError ''cannot pickle generator object'')"
| "pickle_error (VList []) = None"
| "pickle_error (VList (v # vs)) =
     (case pickle_error v of Some e \<Rightarrow> Some e | None \<Rightarrow> pickle_error (VList vs))"
| "pickle_error v = None"

fun first_pickle_error :: "dict \<Rightarrow> exc option" where
  "first_pickle_error [] = None"
| "first_pickle_error ((k, x) # d) =
     (case pickle_error (val x) of Some e \<Rightarrow> Some e | None \<Rightarrow> first_pickle_error d)"

text \<open>
  \<^verbatim>\<open>pickle.dump(self.data, file)\<close> writes the keys and the contents, not the identities;
  it raises when a content cannot be pickled: \<^verbatim>\<open>PicklingError\<close>, which \<^verbatim>\<open>save\<close>
  catches, or \<^verbatim>\<open>TypeError\<close>, which it does not.
\<close>

definition contents :: "dict \<Rightarrow> (string \<times> pyval) list" where
  "contents d = map (\<lambda>(k, x). (k, val x)) d"

definition serializable :: "dict \<Rightarrow> bool" where
  "serializable d = list_all (\<lambda>(k, x). picklable (val x)) d"

definition pickle_dump :: "dict \<Rightarrow> exc + blob" where
  "pickle_dump d =
     (case first_pickle_error d of
        None \<Rightarrow> Inr (PickledDict (contents d))
      | Some e \<Rightarrow> Inl e)"

text \<open>
  \<^verbatim>\<open>pickle.load\<close> builds objects: their identities are taken from \<open>next_oid\<close>. (CPython
  hands back its cached objects for \<^verbatim>\<open>None\<close> and for small integers instead of new
  ones; nothing below depends on the identity of a loaded object, only on its content.)
\<close>

fun unpickle :: "nat \<Rightarrow> (string \<times> pyval) list \<Rightarrow> dict" where
  "unpickle n [] = []"
| "unpickle n ((k, v) # kvs) = (k, Obj n v) # unpickle (Suc n) kvs"

section \<open>\<^verbatim>\<open>variabledb/core.py\<close>\<close>

definition endswith :: "string \<Rightarrow> string \<Rightarrow> bool" where
  "endswith f suf = (length suf \<le> length f \<and> drop (length f - length suf) f = suf)"

fun check_file_name :: "pyval \<Rightarrow> string outcome" where
  "check_file_name (VStr f) = Returned (if endswith f ''.db'' then f else f @ ''.db'')"
| "check_file_name v = Raised (Exc TypeError ''filename must be a string'')"

text \<open>The \<^verbatim>\<open>scope\<close> argument of the constructor: a dictionary, or something else.\<close>

datatype scope_arg = ScopeDict dict | ScopeOther pyval

definition add_to_unsaved :: "store \<Rightarrow> string set world \<Rightarrow> string set world" where
  "add_to_unsaved s w = w\<lparr>unsaved_files := insert (filename s) (unsaved_files w)\<rparr>"

definition VariableDb_init ::
  "pyval \<Rightarrow> scope_arg option \<Rightarrow> string set world \<Rightarrow> store outcome \<times> string set world" where
  "VariableDb_init fname sc w =
     (case check_file_name fname of
        Raised e \<Rightarrow> (Raised e, w)
      | Returned f \<Rightarrow>
          (case (case sc of None \<Rightarrow> ScopeDict (module_globals w) | Some a \<Rightarrow> a) of
             ScopeOther v \<Rightarrow> (Raised (Exc TypeError ''scope must be a dictionary''), w)
           | ScopeDict d \<Rightarrow>
               (Returned \<lparr>filename = f, data = [], scope = d\<rparr>,
                w\<lparr>unsaved_files := insert f (unsaved_files w)\<rparr>)))"

text \<open>
  \<^verbatim>\<open>get_variable_name\<close>: the first key of the scope, in iteration order, whose value is
  the argument itself. The scope is a dictionary (the constructor checked it), so the
  iteration raises nothing and the \<^verbatim>\<open>except (KeyError, TypeError)\<close> branch is not
  entered.
\<close>

fun scan_scope :: "dict \<Rightarrow> pyobj \<Rightarrow> string option" where
  "scan_scope [] variable = None"
| "scan_scope ((name, v) # rest) variable =
     (if is_same v variable then Some name else scan_scope rest variable)"

definition get_variable_name :: "store \<Rightarrow> pyobj \<Rightarrow> string option" where
  "get_variable_name s variable = scan_scope (scope s) variable"

definition add_body :: "store \<Rightarrow> string set world \<Rightarrow> pyobj \<Rightarrow> string set result" where
  "add_body s w variable =
     (case get_variable_name s variable of
        None \<Rightarrow> (Raised (Exc ValueError ''Could not determine variable name''), s, w)
      | Some name \<Rightarrow>
          if has_key (data s) name
          then (Raised (Exc KeyError (''Variable '' @ quoted name @ '' already exists'')), s, w)
          else (Returned (), s\<lparr>data := AList.update name variable (data s)\<rparr>,
                add_to_unsaved s w))"

definition add :: "store \<Rightarrow> string set world \<Rightarrow> pyobj \<Rightarrow> string set result" where
  "add s w variable =
     except_log [ValueError, KeyError, TypeError] ''Failed to add variable: ''
       (add_body s w variable)"

definition add_by_name :: "store \<Rightarrow> string set world \<Rightarrow> string \<Rightarrow> string set result" where
  "add_by_name s w var_name =
     (case map_of (scope s) var_name of
        None \<Rightarrow>
          (Raised (Exc KeyError (''Variable '' @ quoted var_name @ '' not found in scope'')), s,
           logging_error (''Variable '' @ quoted var_name @ '' not found in scope'') None w)
      | Some x \<Rightarrow>
          if has_key (data s) var_name
          then (Raised (Exc KeyError (''Variable '' @ quoted var_name @ '' already exists'')), s,
                logging_error (''Variable '' @ quoted var_name @ '' already exists in data'') None w)
          else (Returned (), s\<lparr>data := AList.update var_name x (data s)\<rparr>,
                add_to_unsaved s w))"

text \<open>The \<^verbatim>\<open>for\<close> loop of \<^verbatim>\<open>add_multiple\<close>: it stops at the first call that raises.\<close>

fun add_each :: "store \<Rightarrow> string set world \<Rightarrow> pyobj list \<Rightarrow> string set result" where
  "add_each s w [] = (Returned (), s, w)"
| "add_each s w (variable # variables) =
     (case add s w variable of
        (Raised e, s', w') \<Rightarrow> (Raised e, s', w')
      | (Returned u, s', w') \<Rightarrow> add_each s' w' variables)"

definition add_multiple :: "store \<Rightarrow> string set world \<Rightarrow> pyobj list \<Rightarrow> string set result" where
  "add_multiple s w variables =
     except_log [ValueError, KeyError, TypeError] ''Failed to add multiple variables: ''
       (case add_each s w variables of
          (Raised e, s', w') \<Rightarrow> (Raised e, s', w')
        | (Returned u, s', w') \<Rightarrow> (Returned (), s', add_to_unsaved s' w'))"

definition delete_body :: "store \<Rightarrow> string set world \<Rightarrow> pyobj \<Rightarrow> string set result" where
  "delete_body s w variable =
     (case get_variable_name s variable of
        None \<Rightarrow> (Raised (Exc ValueError ''Could not determine variable name''), s, w)
      | Some name \<Rightarrow>
          if \<not> has_key (data s) name
          then (Raised (Exc KeyError (''Variable '' @ quoted name @ '' not found in dictionary'')),
                s, w)
          else (Returned (), s\<lparr>data := AList.delete name (data s)\<rparr>, add_to_unsaved s w))"

definition delete :: "store \<Rightarrow> string set world \<Rightarrow> pyobj \<Rightarrow> string set result" where
  "delete s w variable =
     except_log [ValueError, KeyError] ''Failed to delete variable: ''
       (delete_body s w variable)"

definition replace_body :: "store \<Rightarrow> string set world \<Rightarrow> pyobj \<Rightarrow> string set result" where
  "replace_body s w variable =
     (case get_variable_name s variable of
        None \<Rightarrow> (Raised (Exc ValueError ''Could not determine variable name''), s, w)
      | Some name \<Rightarrow>
          if \<not> has_key (data s) name
          then (Raised (Exc KeyError (''Variable '' @ quoted name @ '' does not exist'')), s, w)
          else (Returned (), s\<lparr>data := AList.update name variable (data s)\<rparr>,
                add_to_unsaved s w))"

definition replace :: "store \<Rightarrow> string set world \<Rightarrow> pyobj \<Rightarrow> string set result" where
  "replace s w variable =
     except_log [ValueError, KeyError] ''Failed to replace variable: ''
       (replace_body s w variable)"

text \<open>
  \<^verbatim>\<open>save\<close>: \<^verbatim>\<open>open(..., "wb")\<close> raises \<^verbatim>\<open>OSError\<close> on an unwritable path and
  truncates the file otherwise; a dump that raises leaves the truncated file behind. The
  path leaves the registry only after the \<^verbatim>\<open>with\<close> block has completed.
\<close>

definition save_body :: "store \<Rightarrow> string set world \<Rightarrow> string set result" where
  "save_body s w =
     (if filename s \<in> unwritable w
      then (Raised (Exc OSError ''cannot open file for writing''), s, w)
      else (case pickle_dump (data s) of
              Inl e \<Rightarrow> (Raised e, s, w\<lparr>files := (files w)(filename s \<mapsto> Truncated)\<rparr>)
            | Inr b \<Rightarrow>
                (Returned (), s,
                 w\<lparr>files := (files w)(filename s \<mapsto> b),
                   unsaved_files := unsaved_files w - {filename s}\<rparr>)))"

definition save :: "store \<Rightarrow> string set world \<Rightarrow> string set result" where
  "save s w =
     except_log [OSError, PicklingError] (''Failed to save to '' @ filename s @ '': '')
       (save_body s w)"

text \<open>
  \<^verbatim>\<open>load\<close>: a missing file raises \<^verbatim>\<open>FileNotFoundError\<close>, bytes that are no pickle
  raise \<^verbatim>\<open>UnpicklingError\<close>, a pickle that ends early raises \<^verbatim>\<open>EOFError\<close> (which
  the \<^verbatim>\<open>except\<close> clause does not name), a pickle of something else than a dictionary
  raises \<^verbatim>\<open>ValueError\<close>.
\<close>

definition load_body :: "store \<Rightarrow> string set world \<Rightarrow> string set result" where
  "load_body s w =
     (case files w (filename s) of
        None \<Rightarrow> (Raised (Exc FileNotFoundError ''No such file or directory''), s, w)
      | Some Corrupt \<Rightarrow> (Raised (Exc UnpicklingError ''invalid load key''), s, w)
      | Some Truncated \<Rightarrow> (Raised (Exc EOFError ''Ran out of input''), s, w)
      | Some (PickledOther v) \<Rightarrow>
          (Raised (Exc ValueError ''Loaded data is not a dictionary''), s,
           w\<lparr>next_oid := Suc (next_oid w)\<rparr>)
      | Some (PickledDict kvs) \<Rightarrow>
          (Returned (), s\<lparr>data := unpickle (next_oid w) kvs\<rparr>,
           add_to_unsaved s (w\<lparr>next_oid := next_oid w + length kvs\<rparr>)))"

definition load :: "store \<Rightarrow> string set world \<Rightarrow> string set result" where
  "load s w =
     except_log [FileNotFoundError, UnpicklingError, ValueError]
       (''Failed to load file '' @ filename s @ '': '')
       (load_body s w)"

definition clear :: "store \<Rightarrow> string set world \<Rightarrow> string set result" where
  "clear s w = (Returned (), s\<lparr>data := []\<rparr>, add_to_unsaved s w)"

text \<open>
  \<^verbatim>\<open>__enter__\<close>: whatever \<^verbatim>\<open>load\<close> lets through is logged and raised again.
\<close>

definition VariableDb_enter :: "store \<Rightarrow> string set world \<Rightarrow> string set result" where
  "VariableDb_enter s w =
     (if files w (filename s) = None then (Returned (), s, add_to_unsaved s w)
      else (case load s w of
              (Raised e, s', w') \<Rightarrow>
                (Raised e, s', logging_error ''Failed to load file in __enter__: '' (Some e) w')
            | (Returned u, s', w') \<Rightarrow> (Returned u, s', w')))"

text \<open>\<^verbatim>\<open>__exit__\<close>: every exception of \<^verbatim>\<open>save\<close> is logged and dropped.\<close>

definition VariableDb_exit :: "store \<Rightarrow> string set world \<Rightarrow> string set result" where
  "VariableDb_exit s w =
     (case save s w of
        (Raised e, s', w') \<Rightarrow>
          (Returned (), s', logging_error ''Failed to save on context exit: '' (Some e) w')
      | (Returned u, s', w') \<Rightarrow> (Returned u, s', w'))"

text \<open>
  One round of the loop of \<^verbatim>\<open>save_all_open_files\<close>:
  \<^verbatim>\<open>with VariableDb(filename) as db: db.load(); db.save()\<close>. An exception of the
  constructor or of \<^verbatim>\<open>__enter__\<close> propagates at once; an exception of the block
  propagates after \<^verbatim>\<open>__exit__\<close> has run (\<open>exit_after_raise\<close>; \<^verbatim>\<open>__exit__\<close> returns
  \<^verbatim>\<open>None\<close>, so the exception of the block is raised again).
\<close>

definition exit_after_raise ::
  "exc \<Rightarrow> store \<Rightarrow> string set world \<Rightarrow> unit outcome \<times> string set world" where
  "exit_after_raise e s w =
     (case VariableDb_exit s w of
        (Raised e', s', w') \<Rightarrow> (Raised e', w')
      | (Returned u, s', w') \<Rightarrow> (Raised e, w'))"

definition sweep_one :: "string \<Rightarrow> string set world \<Rightarrow> unit outcome \<times> string set world" where
  "sweep_one f w =
     (case VariableDb_init (VStr f) None w of
        (Raised e, w1) \<Rightarrow> (Raised e, w1)
      | (Returned db, w1) \<Rightarrow>
          (case VariableDb_enter db w1 of
             (Raised e, db2, w2) \<Rightarrow> (Raised e, w2)
           | (Returned u, db2, w2) \<Rightarrow>
               (case load db2 w2 of
                  (Raised e, db3, w3) \<Rightarrow> exit_after_raise e db3 w3
                | (Returned u, db3, w3) \<Rightarrow>
                    (case save db3 w3 of
                       (Raised e, db4, w4) \<Rightarrow> exit_after_raise e db4 w4
                     | (Returned u, db4, w4) \<Rightarrow>
                         (case VariableDb_exit db4 w4 of
                            (out, db5, w5) \<Rightarrow> (out, w5))))))"

fun sweep_paths :: "string list \<Rightarrow> string set world \<Rightarrow> unit outcome \<times> string set world" where
  "sweep_paths [] w = (Returned (), w)"
| "sweep_paths (f # fs) w =
     (case sweep_one f w of
        (Raised e, w') \<Rightarrow> (Raised e, w')
      | (Returned u, w') \<Rightarrow> sweep_paths fs w')"

text \<open>
  \<^verbatim>\<open>save_all_open_files\<close> iterates over \<^verbatim>\<open>VariableDb.unsaved_files.copy()\<close>. Python
  fixes no order for the elements of a set: \<open>snapshot\<close> is the copy in the order in which
  the loop meets its elements, so \<open>set snapshot = unsaved_files w\<close> and
  \<open>distinct snapshot\<close> for the world \<open>w\<close> in which the function is called.
\<close>

definition save_all_open_files ::
  "string list \<Rightarrow> string set world \<Rightarrow> unit outcome \<times> string set world" where
  "save_all_open_files snapshot w = sweep_paths snapshot w"

section \<open>\<^verbatim>\<open>variabledb.py\<close>: the registry as a list\<close>

text \<open>
  The older module keeps \<^verbatim>\<open>unsaved_files\<close> in a list. \<^verbatim>\<open>add_to_unsaved\<close> appends a
  path only when it is not there yet; the constructor appends it in any case;
  \<^verbatim>\<open>save\<close> removes its first occurrence.
\<close>

definition legacy_add_to_unsaved :: "store \<Rightarrow> string list world \<Rightarrow> string list world" where
  "legacy_add_to_unsaved s w =
     (if filename s \<notin> set (unsaved_files w)
      then w\<lparr>unsaved_files := unsaved_files w @ [filename s]\<rparr> else w)"

definition legacy_init ::
  "pyval \<Rightarrow> scope_arg option \<Rightarrow> string list world \<Rightarrow> store outcome \<times> string list world" where
  "legacy_init fname sc w =
     (case check_file_name fname of
        Raised e \<Rightarrow> (Raised e, w)
      | Returned f \<Rightarrow>
          (case (case sc of None \<Rightarrow> ScopeDict (module_globals w) | Some a \<Rightarrow> a) of
             ScopeOther v \<Rightarrow> (Raised (Exc TypeError ''scope must be a dictionary''), w)
           | ScopeDict d \<Rightarrow>
               (Returned \<lparr>filename = f, data = [], scope = d\<rparr>,
                w\<lparr>unsaved_files := unsaved_files w @ [f]\<rparr>)))"

definition legacy_save_body :: "store \<Rightarrow> string list world \<Rightarrow> string list result" where
  "legacy_save_body s w =
     (if filename s \<in> unwritable w
      then (Raised (Exc OSError ''cannot open file for writing''), s, w)
      else (case pickle_dump (data s) of
              Inl e \<Rightarrow> (Raised e, s, w\<lparr>files := (files w)(filename s \<mapsto> Truncated)\<rparr>)
            | Inr b \<Rightarrow>
                (Returned (), s,
                 w\<lparr>files := (files w)(filename s \<mapsto> b),
                   unsaved_files :=
                     (if filename s \<in> set (unsaved_files w)
                      then remove1 (filename s) (unsaved_files w)
                      else unsaved_files w)\<rparr>)))"

definition legacy_save :: "store \<Rightarrow> string list world \<Rightarrow> string list result" where
  "legacy_save s w =
     except_log [OSError, PicklingError] (''Failed to save to '' @ filename s @ '': '')
       (legacy_save_body s w)"

definition legacy_load_body :: "store \<Rightarrow> string list world \<Rightarrow> string list result" where
  "legacy_load_body s w =
     (case files w (filename s) of
        None \<Rightarrow> (Raised (Exc FileNotFoundError ''No such file or directory''), s, w)
      | Some Corrupt \<Rightarrow> (Raised (Exc UnpicklingError ''invalid load key''), s, w)
      | Some Truncated \<Rightarrow> (Raised (Exc EOFError ''Ran out of input''), s, w)
      | Some (PickledOther v) \<Rightarrow>
          (Raised (Exc ValueError ''Loaded data is not a dictionary''), s,
           w\<lparr>next_oid := Suc (next_oid w)\<rparr>)
      | Some (PickledDict kvs) \<Rightarrow>
          (Returned (), s\<lparr>data := unpickle (next_oid w) kvs\<rparr>,
           legacy_add_to_unsaved s (w\<lparr>next_oid := next_oid w + length kvs\<rparr>)))"

definition legacy_load :: "store \<Rightarrow> string list world \<Rightarrow> string list result" where
  "legacy_load s w =
     except_log [FileNotFoundError, UnpicklingError, ValueError]
       (''Failed to load file '' @ filename s @ '': '')
       (legacy_load_body s w)"

text \<open>
  \<^verbatim>\<open>__enter__\<close> of the older module logs whatever \<^verbatim>\<open>load\<close> lets through and then
  falls off its end: the \<^verbatim>\<open>with\<close> statement binds \<^verbatim>\<open>None\<close>.
\<close>

definition legacy_enter ::
  "store \<Rightarrow> string list world \<Rightarrow> store option \<times> store \<times> string list world" where
  "legacy_enter s w =
     (if files w (filename s) = None then (Some s, s, legacy_add_to_unsaved s w)
      else (case legacy_load s w of
              (Raised e, s', w') \<Rightarrow>
                (None, s', logging_error ''Failed to save on context exit: '' (Some e) w')
            | (Returned u, s', w') \<Rightarrow> (Some s', s', w')))"

definition legacy_exit :: "store \<Rightarrow> string list world \<Rightarrow> string list result" where
  "legacy_exit s w =
     (case legacy_save s w of
        (Raised e, s', w') \<Rightarrow>
          (Returned (), s', logging_error ''Failed to save on context exit: '' (Some e) w')
      | (Returned u, s', w') \<Rightarrow> (Returned u, s', w'))"

text \<open>
  One round of the older \<^verbatim>\<open>save_all_open_files\<close>:
  \<^verbatim>\<open>with VariableDb(i) as file: file.save()\<close>.
\<close>

definition legacy_sweep_one ::
  "string \<Rightarrow> string list world \<Rightarrow> unit outcome \<times> string list world" where
  "legacy_sweep_one i w =
     (case legacy_init (VStr i) None w of
        (Raised e, w1) \<Rightarrow> (Raised e, w1)
      | (Returned db, w1) \<Rightarrow>
          (case legacy_enter db w1 of
             (None, db2, w2) \<Rightarrow>
               (case legacy_exit db2 w2 of
                  (Raised e', db3, w3) \<Rightarrow> (Raised e', w3)
                | (Returned u, db3, w3) \<Rightarrow>
                    (Raised (Exc AttributeError ''NoneType object has no attribute save''), w3))
           | (Some file, db2, w2) \<Rightarrow>
               (case legacy_save file w2 of
                  (Raised e, db3, w3) \<Rightarrow>
                    (case legacy_exit db3 w3 of
                       (Raised e', db4, w4) \<Rightarrow> (Raised e', w4)
                     | (Returned u, db4, w4) \<Rightarrow> (Raised e, w4))
                | (Returned u, db3, w3) \<Rightarrow>
                    (case legacy_exit db3 w3 of (out, db4, w4) \<Rightarrow> (out, w4)))))"

text \<open>
  \<^verbatim>\<open>for i in VariableDb.unsaved_files\<close> walks the list itself: the iterator keeps an
  index and, before each round, compares it with the current length. The rounds change
  the list, so the loop need not end; \<open>None\<close> says that the fuel ran out before it did.
\<close>

fun legacy_sweep ::
  "nat \<Rightarrow> nat \<Rightarrow> string list world \<Rightarrow> (unit outcome \<times> string list world) option" where
  "legacy_sweep 0 i w = None"
| "legacy_sweep (Suc fuel) i w =
     (if i < length (unsaved_files w)
      then (case legacy_sweep_one (unsaved_files w ! i) w of
              (Raised e, w') \<Rightarrow> Some (Raised e, w')
            | (Returned u, w') \<Rightarrow> legacy_sweep fuel (Suc i) w')
      else Some (Returned (), w))"

definition legacy_save_all_open_files ::
  "nat \<Rightarrow> string list world \<Rightarrow> (unit outcome \<times> string list world) option" where
  "legacy_save_all_open_files fuel w = legacy_sweep fuel 0 w"

section \<open>Lookup\<close>

text \<open>
  Modelled from the spec: \<^verbatim>\<open>get(name, default=None)\<close> and the container-style lookup
  \<^verbatim>\<open>store[name]\<close> are used by \<^verbatim>\<open>test_variabledb.py\<close> but defined in neither
  module. \<^verbatim>\<open>get\<close> returns \<^verbatim>\<open>entries[name]\<close> if present, else \<^verbatim>\<open>default\<close>; the
  container-style lookup is equivalent but fails with a key-not-found error when the name
  is absent.
\<close>

definition get :: "store \<Rightarrow> string \<Rightarrow> pyobj \<Rightarrow> pyobj outcome" where
  "get s name dflt =
     (case map_of (data s) name of Some x \<Rightarrow> Returned x | None \<Rightarrow> Returned dflt)"

definition getitem :: "store \<Rightarrow> string \<Rightarrow> pyobj outcome" where
  "getitem s name =
     (case map_of (data s) name of
        Some x \<Rightarrow> Returned x
      | None \<Rightarrow> Raised (Exc KeyError (quoted name)))"

section \<open>Method calls and a fresh process\<close>

text \<open>The methods of a \<^verbatim>\<open>variabledb/core.py\<close> store that return \<^verbatim>\<open>None\<close>.\<close>

datatype call =
  Add pyobj | AddByName string | AddMultiple "pyobj list" | Delete pyobj | Replace pyobj
  | Save | Load | Clear | Enter | Exit

fun invoke :: "call \<Rightarrow> store \<Rightarrow> string set world \<Rightarrow> string set result" where
  "invoke (Add v) s w = add s w v"
| "invoke (AddByName n) s w = add_by_name s w n"
| "invoke (AddMultiple vs) s w = add_multiple s w vs"
| "invoke (Delete v) s w = delete s w v"
| "invoke (Replace v) s w = replace s w v"
| "invoke Save s w = save s w"
| "invoke Load s w = load s w"
| "invoke Clear s w = clear s w"
| "invoke Enter s w = VariableDb_enter s w"
| "invoke Exit s w = VariableDb_exit s w"

text \<open>
  What a sweep leaves in a file: the dictionary that \<^verbatim>\<open>load\<close> read from it, or the
  empty dictionary when there was no file or \<^verbatim>\<open>load\<close> could not read one. A file is
  well formed for a sweep when it is not a truncated pickle and, if it is the pickle of a
  dictionary, holds only contents that can be pickled again.
\<close>

definition reloaded :: "blob option \<Rightarrow> (string \<times> pyval) list" where
  "reloaded b = (case b of Some (PickledDict kvs) \<Rightarrow> kvs | _ \<Rightarrow> [])"

definition well_formed :: "blob option \<Rightarrow> bool" where
  "well_formed b =
     (case b of
        Some (PickledDict kvs) \<Rightarrow> list_all (\<lambda>(k, v). picklable v) kvs
      | Some Truncated \<Rightarrow> False
      | _ \<Rightarrow> True)"

text \<open>
  The store and the world after \<^verbatim>\<open>add(v)\<close>, whatever the call did.
\<close>

definition after_add :: "pyobj \<Rightarrow> store \<times> string set world \<Rightarrow> store \<times> string set world" where
  "after_add v sw = snd (add (fst sw) (snd sw) v)"

text \<open>
  The \<^verbatim>\<open>globals()\<close> of either module once it is imported: the eight names that the
  import system sets (\<^verbatim>\<open>__doc__\<close> is \<^verbatim>\<open>None\<close>, the modules have no docstring), the
  seven imported names, and the three names the module defines. The four strings are
  those of the installation at hand.
\<close>

definition imported_globals :: "string \<Rightarrow> string \<Rightarrow> string \<Rightarrow> string \<Rightarrow> dict" where
  "imported_globals nm pkg file cached =
     [(''__name__'', Obj 101 (VStr nm)), (''__doc__'', Obj 0 VNone),
      (''__package__'', Obj 102 (VStr pkg)), (''__loader__'', Obj 103 (VOther 103)),
      (''__spec__'', Obj 104 (VOther 104)), (''__file__'', Obj 105 (VStr file)),
      (''__cached__'', Obj 106 (VStr cached)), (''__builtins__'', Obj 107 (VOther 107)),
      (''pickle'', Obj 108 (VOther 108)), (''logging'', Obj 109 (VOther 109)),
      (''Dict'', Obj 110 (VOther 110)), (''Any'', Obj 111 (VOther 111)),
      (''Optional'', Obj 112 (VOther 112)), (''List'', Obj 113 (VOther 113)),
      (''os'', Obj 114 (VOther 114)), (''check_file_name'', Obj 115 (VOther 115)),
      (''VariableDb'', Obj 116 (VOther 116)),
      (''save_all_open_files'', Obj 117 (VOther 117))]"

text \<open>
  A process that has just imported the module: nothing registered, no file on disk,
  every path writable, nothing logged.
\<close>

definition fresh_process :: "string set world" where
  "fresh_process = \<lparr>unsaved_files = {}, files = Map.empty, unwritable = {},
     module_globals =
       imported_globals ''variabledb.core'' ''variabledb'' ''variabledb/core.py''
         ''variabledb/__pycache__/core.pyc'',
     next_oid = 1000, logged = []\<rparr>"

definition legacy_fresh_process :: "string list world" where
  "legacy_fresh_process = \<lparr>unsaved_files = [], files = Map.empty, unwritable = {},
     module_globals =
       imported_globals ''variabledb'' [] ''variabledb.py'' ''__pycache__/variabledb.pyc'',
     next_oid = 1000, logged = []\<rparr>"

section \<open>What the methods of \<^verbatim>\<open>variabledb/core.py\<close> compute\<close>

text \<open>
  Each method is a body inside \<^verbatim>\<open>try\<close>/\<^verbatim>\<open>except\<close>; the lemmas below give the
  result of the whole method, case by case.
\<close>

lemma add_unfold:
  "add s w v =
     (case get_variable_name s v of
        None \<Rightarrow>
          (Returned (), s,
           logging_error ''Failed to add variable: ''
             (Some (Exc ValueError ''Could not determine variable name'')) w)
      | Some name \<Rightarrow>
          if has_key (data s) name
          then (Returned (), s,
                logging_error ''Failed to add variable: ''
                  (Some (Exc KeyError (''Variable '' @ quoted name @ '' already exists''))) w)
          else (Returned (), s\<lparr>data := AList.update name v (data s)\<rparr>, add_to_unsaved s w))"
  by (simp add: add_def add_body_def except_log_def caught_by_def split: option.split)

lemma add_returns: "fst (add s w v) = Returned ()"
  by (simp add: add_unfold split: option.split)

lemma delete_unfold:
  "delete s w v =
     (case get_variable_name s v of
        None \<Rightarrow>
          (Returned (), s,
           logging_error ''Failed to delete variable: ''
             (Some (Exc ValueError ''Could not determine variable name'')) w)
      | Some name \<Rightarrow>
          if \<not> has_key (data s) name
          then (Returned (), s,
                logging_error ''Failed to delete variable: ''
                  (Some (Exc KeyError
                     (''Variable '' @ quoted name @ '' not found in dictionary''))) w)
          else (Returned (), s\<lparr>data := AList.delete name (data s)\<rparr>, add_to_unsaved s w))"
  by (simp add: delete_def delete_body_def except_log_def caught_by_def split: option.split)

lemma replace_unfold:
  "replace s w v =
     (case get_variable_name s v of
        None \<Rightarrow>
          (Returned (), s,
           logging_error ''Failed to replace variable: ''
             (Some (Exc ValueError ''Could not determine variable name'')) w)
      | Some name \<Rightarrow>
          if \<not> has_key (data s) name
          then (Returned (), s,
                logging_error ''Failed to replace variable: ''
                  (Some (Exc KeyError (''Variable '' @ quoted name @ '' does not exist''))) w)
          else (Returned (), s\<lparr>data := AList.update name v (data s)\<rparr>, add_to_unsaved s w))"
  by (simp add: replace_def replace_body_def except_log_def caught_by_def split: option.split)

lemma pickle_error_None: "pickle_error v = None \<longleftrightarrow> picklable v"
  by (induction v rule: pickle_error.induct) (auto split: option.splits)

lemma first_pickle_error_None: "first_pickle_error d = None \<longleftrightarrow> serializable d"
  by (induction d rule: first_pickle_error.induct)
    (auto simp: serializable_def pickle_error_None [symmetric] split: option.splits)

lemma pickle_dump_serializable:
  "serializable d \<Longrightarrow> pickle_dump d = Inr (PickledDict (contents d))"
  using first_pickle_error_None [of d] by (simp add: pickle_dump_def)

lemma pickle_dump_refused:
  "\<not> serializable d \<Longrightarrow> \<exists>e. pickle_dump d = Inl e \<and> first_pickle_error d = Some e"
  by (cases "first_pickle_error d") (simp_all add: pickle_dump_def first_pickle_error_None)

text \<open>
  \<^verbatim>\<open>save\<close>: an \<^verbatim>\<open>OSError\<close> is logged; a dump that succeeds writes the file and takes
  the path out of the registry; a dump that raises leaves a truncated file, and the
  \<^verbatim>\<open>except\<close> clause decides by the class of the exception whether it is logged or
  raised to the caller.
\<close>

lemma save_unfold:
  "save s w =
     (if filename s \<in> unwritable w
      then (Returned (), s,
            logging_error (''Failed to save to '' @ filename s @ '': '')
              (Some (Exc OSError ''cannot open file for writing'')) w)
      else if serializable (data s)
      then (Returned (), s,
            w\<lparr>files := (files w)(filename s \<mapsto> PickledDict (contents (data s))),
              unsaved_files := unsaved_files w - {filename s}\<rparr>)
      else except_log [OSError, PicklingError] (''Failed to save to '' @ filename s @ '': '')
             (Raised (the (first_pickle_error (data s))), s,
              w\<lparr>files := (files w)(filename s \<mapsto> Truncated)\<rparr>))"
proof (cases "serializable (data s)")
  case True
  then show ?thesis
    by (simp add: save_def save_body_def pickle_dump_serializable except_log_def caught_by_def)
next
  case False
  from pickle_dump_refused [OF this] obtain e where
    "pickle_dump (data s) = Inl e" "first_pickle_error (data s) = Some e"
    by blast
  with False show ?thesis
    by (simp add: save_def save_body_def except_log_def caught_by_def)
qed

text \<open>
  A generator among the entries: the dump raises \<^verbatim>\<open>TypeError\<close>, which \<^verbatim>\<open>save\<close> does
  not catch. The call raises to the caller, nothing is logged, the file is left truncated
  and the registry is as it was.
\<close>

lemma save_raises_TypeError:
  "filename s \<notin> unwritable w \<Longrightarrow> data s = [(k, Obj i (VGenerator g))] \<Longrightarrow>
   save s w =
     (Raised (Exc TypeError ''cannot pickle generator object''), s,
      w\<lparr>files := (files w)(filename s \<mapsto> Truncated)\<rparr>)"
  by (simp add: save_def save_body_def pickle_dump_def except_log_def caught_by_def)

lemma except_log_registry:
  "unsaved_files (snd (snd (except_log cs m (out, s, w)))) = unsaved_files w"
  by (simp add: except_log_def logging_error_def split: outcome.split)

lemma contents_unpickle: "contents (unpickle n kvs) = kvs"
  by (induction n kvs rule: unpickle.induct) (simp_all add: contents_def)

lemma load_pickled_dict:
  "files w (filename t) = Some (PickledDict kvs) \<Longrightarrow>
   load t w = (Returned (), t\<lparr>data := unpickle (next_oid w) kvs\<rparr>,
               add_to_unsaved t (w\<lparr>next_oid := next_oid w + length kvs\<rparr>))"
  by (simp add: load_def load_body_def except_log_def)

text \<open>
  The loaded entries replace whatever the store held: they depend on the file alone.
\<close>

lemma load_replaces_entries:
  "files w (filename t) = Some (PickledDict kvs) \<Longrightarrow>
   contents (data (fst (snd (load t w)))) = kvs"
  by (simp add: load_pickled_dict contents_unpickle)

text \<open>Every store that the constructor returns has a normalised file name.\<close>

lemma init_filename_normalised:
  "VariableDb_init fname sc w = (Returned s, w') \<Longrightarrow> endswith (filename s) ''.db''"
  by (cases fname)
    (auto simp: VariableDb_init_def endswith_def split: scope_arg.splits option.splits)

lemma init_Returned:
  "VariableDb_init fname sc w = (Returned s, w') \<Longrightarrow>
   check_file_name fname = Returned (filename s) \<and> data s = [] \<and>
   w' = w\<lparr>unsaved_files := insert (filename s) (unsaved_files w)\<rparr>"
  by (auto simp: VariableDb_init_def split: outcome.splits scope_arg.splits option.splits)

section \<open>Name resolution\<close>

text \<open>
  \<^verbatim>\<open>get_variable_name\<close> returns \<open>n\<close> exactly when \<open>n\<close> is the first key of the scope, in
  iteration order, that is bound to the argument itself.
\<close>

lemma scan_scope_Some_iff:
  "scan_scope sc v = Some n \<longleftrightarrow>
     (\<exists>pre x post. sc = pre @ (n, x) # post \<and> is_same x v \<and>
        (\<forall>(k, y) \<in> set pre. \<not> is_same y v))"
proof (induction sc)
  case Nil
  then show ?case by simp
next
  case (Cons p sc)
  obtain k y where p: "p = (k, y)" by (cases p)
  show ?case
  proof (cases "is_same y v")
    case True
    have "(\<exists>pre x post. (k, y) # sc = pre @ (n, x) # post \<and> is_same x v \<and>
        (\<forall>(k, y) \<in> set pre. \<not> is_same y v)) \<longleftrightarrow> k = n"
    proof
      assume "\<exists>pre x post. (k, y) # sc = pre @ (n, x) # post \<and> is_same x v \<and>
        (\<forall>(k, y) \<in> set pre. \<not> is_same y v)"
      then obtain pre x post where e: "(k, y) # sc = pre @ (n, x) # post"
        and a: "\<forall>(k, y) \<in> set pre. \<not> is_same y v" by blast
      show "k = n"
      proof (cases pre)
        case Nil
        with e show ?thesis by simp
      next
        case (Cons q pre')
        with e have "q = (k, y)" by simp
        with Cons a True show ?thesis by auto
      qed
    next
      assume "k = n"
      then have "(k, y) # sc = [] @ (n, y) # sc" by simp
      with True show "\<exists>pre x post. (k, y) # sc = pre @ (n, x) # post \<and> is_same x v \<and>
        (\<forall>(k, y) \<in> set pre. \<not> is_same y v)" by (metis empty_iff empty_set)
    qed
    with True p show ?thesis by auto
  next
    case False
    have "(\<exists>pre x post. (k, y) # sc = pre @ (n, x) # post \<and> is_same x v \<and>
        (\<forall>(k, y) \<in> set pre. \<not> is_same y v)) \<longleftrightarrow>
        (\<exists>pre x post. sc = pre @ (n, x) # post \<and> is_same x v \<and>
        (\<forall>(k, y) \<in> set pre. \<not> is_same y v))" (is "?L \<longleftrightarrow> ?R")
    proof
      assume ?L
      then obtain pre x post where e: "(k, y) # sc = pre @ (n, x) # post"
        and i: "is_same x v" and a: "\<forall>(k, y) \<in> set pre. \<not> is_same y v" by blast
      show ?R
      proof (cases pre)
        case Nil
        with e i False show ?thesis by simp
      next
        case (Cons q pre')
        with e have "sc = pre' @ (n, x) # post" by simp
        moreover from Cons a have "\<forall>(k, y) \<in> set pre'. \<not> is_same y v" by simp
        ultimately show ?thesis using i by blast
      qed
    next
      assume ?R
      then obtain pre x post where e: "sc = pre @ (n, x) # post"
        and i: "is_same x v" and a: "\<forall>(k, y) \<in> set pre. \<not> is_same y v" by blast
      from e have "(k, y) # sc = ((k, y) # pre) @ (n, x) # post" by simp
      moreover from a False have "\<forall>(k, y) \<in> set ((k, y) # pre). \<not> is_same y v" by simp
      ultimately show ?L using i by blast
    qed
    with False p Cons.IH show ?thesis by simp
  qed
qed

section \<open>\<^verbatim>\<open>add\<close>\<close>

text \<open>
  C1. The claim: \<^verbatim>\<open>add(value)\<close> raises a name-resolution error to the caller when no
  scope key binds the value by identity, and a duplicate-key error when the resolved name
  is already a key of the entries. The code raises both inside its own \<^verbatim>\<open>try\<close> block
  and catches them there: with the scope \<^verbatim>\<open>{}\<close>, \<^verbatim>\<open>add(123)\<close> returns normally, the
  entries are unchanged and the \<^verbatim>\<open>ValueError\<close> is only logged; with \<^verbatim>\<open>x\<close> in the scope
  and already stored, \<^verbatim>\<open>add(x)\<close> returns normally as well, the \<^verbatim>\<open>KeyError\<close> is only
  logged.
\<close>

theorem add_swallows_errors:
  "(case VariableDb_init (VStr ''test.db'') (Some (ScopeDict [])) fresh_process of
      (Returned db, w) \<Rightarrow>
        add db w (Obj 1 (VInt 123)) =
          (Returned (), db,
           logging_error ''Failed to add variable: ''
             (Some (Exc ValueError ''Could not determine variable name'')) w)
    | (Raised e, w) \<Rightarrow> False) \<and>
   add \<lparr>filename = ''test.db'', data = [(''x'', Obj 1 (VInt 42))],
        scope = [(''x'', Obj 1 (VInt 42))]\<rparr> fresh_process (Obj 1 (VInt 42)) =
     (Returned (),
      \<lparr>filename = ''test.db'', data = [(''x'', Obj 1 (VInt 42))],
        scope = [(''x'', Obj 1 (VInt 42))]\<rparr>,
      logging_error ''Failed to add variable: ''
        (Some (Exc KeyError (''Variable '' @ quoted ''x'' @ '' already exists'')))
        fresh_process)"
  by (simp add: VariableDb_init_def add_unfold get_variable_name_def endswith_def
      is_same_def has_key_def)

text \<open>
  C2. The claim: for every value \<open>v\<close> bound by identity in the scope under a name \<open>n\<close>
  that is not yet a key of the entries, \<^verbatim>\<open>add(v)\<close> followed by \<^verbatim>\<open>get(n)\<close> returns
  \<open>v\<close>. It fails when an earlier key of the scope is bound to the same object: the value
  is stored under that earlier key. With the scope \<^verbatim>\<open>{"a": x, "b": x}\<close> and \<open>n\<close> the key
  \<^verbatim>\<open>"b"\<close>, \<^verbatim>\<open>add(x)\<close> stores \<open>x\<close> under \<^verbatim>\<open>"a"\<close> and \<^verbatim>\<open>get("b")\<close> returns the
  default.
\<close>

theorem add_then_get_counterexample:
  "(''b'', Obj 1 (VInt 5)) \<in> set (scope \<lparr>filename = ''t.db'', data = [],
        scope = [(''a'', Obj 1 (VInt 5)), (''b'', Obj 1 (VInt 5))]\<rparr>)
   \<and> \<not> has_key (data \<lparr>filename = ''t.db'', data = [],
        scope = [(''a'', Obj 1 (VInt 5)), (''b'', Obj 1 (VInt 5))]\<rparr>) ''b''
   \<and> (case add \<lparr>filename = ''t.db'', data = [],
        scope = [(''a'', Obj 1 (VInt 5)), (''b'', Obj 1 (VInt 5))]\<rparr> fresh_process (Obj 1 (VInt 5)) of
        (out, s', w') \<Rightarrow> get s' ''b'' (Obj 0 VNone) \<noteq> Returned (Obj 1 (VInt 5)))"
  by (simp add: add_unfold get_variable_name_def is_same_def has_key_def get_def)

text \<open>
  C2, amended: when \<open>n\<close> is the name that the scan resolves \<open>v\<close> to (the first key of the
  scope bound to \<open>v\<close> by identity) and \<open>n\<close> is not yet a key of the entries, \<^verbatim>\<open>add(v)\<close>
  returns normally and afterwards the entries bind \<open>n\<close> to \<open>v\<close>, so \<^verbatim>\<open>get(n)\<close> returns
  \<open>v\<close>.
\<close>

theorem add_then_get_first_name:
  assumes "get_variable_name s v = Some n" and "\<not> has_key (data s) n"
    and "add s w v = (out, s', w')"
  shows "out = Returned () \<and> map_of (data s') n = Some v \<and> get s' n dflt = Returned v"
  using assms by (auto simp: add_unfold get_def AList.update_conv')

theorem add_then_get_first_name_witness:
  "get_variable_name \<lparr>filename = ''t.db'', data = [], scope = [(''x_val'', Obj 1 (VInt 100))]\<rparr>
     (Obj 1 (VInt 100)) = Some ''x_val'' \<and>
   \<not> has_key (data \<lparr>filename = ''t.db'', data = [],
                     scope = [(''x_val'', Obj 1 (VInt 100))]\<rparr>) ''x_val'' \<and>
   get (fst (snd (add \<lparr>filename = ''t.db'', data = [],
                        scope = [(''x_val'', Obj 1 (VInt 100))]\<rparr>
                     fresh_process (Obj 1 (VInt 100)))))
       ''x_val'' (Obj 0 VNone) = Returned (Obj 1 (VInt 100))"
proof -
  let ?s = "\<lparr>filename = ''t.db'', data = [], scope = [(''x_val'', Obj 1 (VInt 100))]\<rparr>"
  let ?v = "Obj 1 (VInt 100)"
  have a: "get_variable_name ?s ?v = Some ''x_val''"
    by (simp add: get_variable_name_def is_same_def)
  have b: "\<not> has_key (data ?s) ''x_val''"
    by (simp add: has_key_def)
  obtain out s' w' where c: "add ?s fresh_process ?v = (out, s', w')"
    by (cases "add ?s fresh_process ?v")
  from add_then_get_first_name [OF a b c, of "Obj 0 VNone"] a b c
  show ?thesis by simp
qed

section \<open>\<^verbatim>\<open>save\<close> and \<^verbatim>\<open>load\<close>\<close>

text \<open>
  C3. The claim: for every store whose entries are serializable, \<^verbatim>\<open>save()\<close>, then a
  fresh store on the same path, then \<^verbatim>\<open>load()\<close> gives entries equal by value to the
  original ones. It fails when the file cannot be opened for writing: \<^verbatim>\<open>save\<close> logs the
  \<^verbatim>\<open>OSError\<close> and writes nothing, \<^verbatim>\<open>load\<close> then finds no file, logs that, and the
  fresh store keeps its empty entries.
\<close>

theorem save_load_roundtrip_counterexample:
  "serializable (data \<lparr>filename = ''a.db'', data = [(''x'', Obj 1 (VInt 7))], scope = []\<rparr>) \<and>
   (case save \<lparr>filename = ''a.db'', data = [(''x'', Obj 1 (VInt 7))], scope = []\<rparr>
            (fresh_process\<lparr>unwritable := {''a.db''}\<rparr>) of
      (out1, s1, w1) \<Rightarrow>
        (case VariableDb_init (VStr ''a.db'') (Some (ScopeDict [])) w1 of
           (Returned t, w2) \<Rightarrow>
             (case load t w2 of
                (out2, t', w3) \<Rightarrow>
                  contents (data t') \<noteq>
                  contents (data \<lparr>filename = ''a.db'', data = [(''x'', Obj 1 (VInt 7))],
                                  scope = []\<rparr>))
         | (Raised e, w2) \<Rightarrow> False))"
  by (simp add: save_unfold serializable_def fresh_process_def VariableDb_init_def endswith_def
      load_def load_body_def except_log_def caught_by_def contents_def logging_error_def)

text \<open>
  C3, amended: for every store whose entries are serializable and whose file can be opened
  for writing, \<^verbatim>\<open>save()\<close> returns normally, and a store constructed afterwards on the
  same path gets from \<^verbatim>\<open>load()\<close> entries with the same keys, in the same order, bound
  to values of the same content as the original entries. (The file name of the store is
  normalised, as \<open>init_filename_normalised\<close> shows of every constructed store; that
  \<^verbatim>\<open>load\<close> replaces the entries rather than merging is \<open>load_replaces_entries\<close>.)
\<close>

theorem save_load_roundtrip:
  assumes "filename s \<notin> unwritable w" and "serializable (data s)"
    and "endswith (filename s) ''.db''"
    and "save s w = (out1, s1, w1)"
    and "VariableDb_init (VStr (filename s)) sc w1 = (Returned t, w2)"
    and "load t w2 = (out2, t', w3)"
  shows "out1 = Returned () \<and> out2 = Returned () \<and> contents (data t') = contents (data s)"
proof -
  from assms(1,2,4) have w1: "files w1 (filename s) = Some (PickledDict (contents (data s)))"
    and o1: "out1 = Returned ()"
    by (auto simp: save_unfold)
  from init_Returned [OF assms(5)] assms(3)
  have ft: "filename t = filename s" and w2: "files w2 = files w1"
    by auto
  from w1 ft w2 have "files w2 (filename t) = Some (PickledDict (contents (data s)))"
    by simp
  from load_pickled_dict [OF this] assms(6)
  have "out2 = Returned ()" and "data t' = unpickle (next_oid w2) (contents (data s))"
    by auto
  with o1 show ?thesis by (simp add: contents_unpickle)
qed

theorem save_load_roundtrip_witness:
  "filename \<lparr>filename = ''a.db'', data = [(''x'', Obj 1 (VInt 7))], scope = []\<rparr>
     \<notin> unwritable fresh_process \<and>
   serializable (data \<lparr>filename = ''a.db'', data = [(''x'', Obj 1 (VInt 7))], scope = []\<rparr>) \<and>
   (case save \<lparr>filename = ''a.db'', data = [(''x'', Obj 1 (VInt 7))], scope = []\<rparr> fresh_process of
      (out1, s1, w1) \<Rightarrow>
        (case VariableDb_init (VStr ''a.db'') (Some (ScopeDict [])) w1 of
           (Returned t, w2) \<Rightarrow>
             (case load t w2 of
                (out2, t', w3) \<Rightarrow>
                  out1 = Returned () \<and> out2 = Returned () \<and>
                  contents (data t') = [(''x'', VInt 7)])
         | (Raised e, w2) \<Rightarrow> False))"
proof -
  let ?s = "\<lparr>filename = ''a.db'', data = [(''x'', Obj 1 (VInt 7))], scope = []\<rparr>"
  obtain out1 s1 w1 where sv: "save ?s fresh_process = (out1, s1, w1)"
    by (cases "save ?s fresh_process") 
  obtain r w2 where i: "VariableDb_init (VStr (filename ?s)) (Some (ScopeDict [])) w1 = (r, w2)"
    by (cases "VariableDb_init (VStr (filename ?s)) (Some (ScopeDict [])) w1")
  then obtain t where r: "r = Returned t"
    by (auto simp: VariableDb_init_def endswith_def)
  obtain out2 t' w3 where l: "load t w2 = (out2, t', w3)"
    by (cases "load t w2")
  have a: "filename ?s \<notin> unwritable fresh_process" by (simp add: fresh_process_def)
  have b: "serializable (data ?s)" by (simp add: serializable_def)
  have c: "endswith (filename ?s) ''.db''" by (simp add: endswith_def)
  from save_load_roundtrip [OF a b c sv i [unfolded r] l] a b sv i r l
  show ?thesis by (simp add: contents_def)
qed

section \<open>\<^verbatim>\<open>delete\<close>\<close>

text \<open>
  \<^verbatim>\<open>delete\<close> takes a value and resolves it by identity through the scope; it looks at
  the type of its argument nowhere. It never raises: whatever goes wrong is logged. When
  the argument resolves to a name that is a key of the entries, the entry is removed and
  the store is marked dirty.
\<close>

lemma delete_returns: "fst (delete s w v) = Returned ()"
  by (simp add: delete_unfold split: option.split)

lemma delete_removes_entry:
  "get_variable_name s v = Some n \<Longrightarrow> has_key (data s) n \<Longrightarrow>
   delete s w v = (Returned (), s\<lparr>data := AList.delete n (data s)\<rparr>, add_to_unsaved s w)"
  by (simp add: delete_unfold)

text \<open>
  C4. The claim: \<^verbatim>\<open>delete\<close> with a non-string argument fails with an error of its own
  and never silently does nothing. With the scope \<^verbatim>\<open>{}\<close>, \<^verbatim>\<open>delete(123)\<close> raises
  \<^verbatim>\<open>ValueError\<close> inside its own \<^verbatim>\<open>try\<close> block and catches it there: the call
  returns normally, the store is unchanged and only a log record is written. The same
  happens, with a \<^verbatim>\<open>KeyError\<close>, to an integer that the scope binds to a name that is
  not a key of the entries.
\<close>

theorem delete_swallows_errors:
  "(case VariableDb_init (VStr ''test.db'') (Some (ScopeDict [])) fresh_process of
      (Returned db, w) \<Rightarrow>
        delete db w (Obj 1 (VInt 123)) =
          (Returned (), db,
           logging_error ''Failed to delete variable: ''
             (Some (Exc ValueError ''Could not determine variable name'')) w)
    | (Raised e, w) \<Rightarrow> False) \<and>
   delete \<lparr>filename = ''test.db'', data = [], scope = [(''n'', Obj 1 (VInt 123))]\<rparr>
        fresh_process (Obj 1 (VInt 123)) =
     (Returned (),
      \<lparr>filename = ''test.db'', data = [], scope = [(''n'', Obj 1 (VInt 123))]\<rparr>,
      logging_error ''Failed to delete variable: ''
        (Some (Exc KeyError (''Variable '' @ quoted ''n'' @ '' not found in dictionary'')))
        fresh_process)"
  by (simp add: VariableDb_init_def delete_unfold get_variable_name_def endswith_def
      is_same_def has_key_def)

section \<open>Lookup by name\<close>

text \<open>
  C7. \<^verbatim>\<open>get(name, default)\<close> returns the entry when the name is a key and the default,
  without raising, otherwise; \<^verbatim>\<open>store[name]\<close> returns the same entry when the name is
  a key and raises a key error otherwise.
\<close>

theorem get_and_getitem:
  "(map_of (data s) name = Some x \<longrightarrow>
      get s name dflt = Returned x \<and> getitem s name = Returned x) \<and>
   (map_of (data s) name = None \<longrightarrow>
      get s name dflt = Returned dflt \<and>
      (\<exists>m. getitem s name = Raised (Exc KeyError m)))"
  by (simp add: get_def getitem_def)

theorem get_and_getitem_witness:
  "map_of (data \<lparr>filename = ''t.db'', data = [(''x_val'', Obj 1 (VInt 100))], scope = []\<rparr>)
     ''x_val'' = Some (Obj 1 (VInt 100)) \<and>
   get \<lparr>filename = ''t.db'', data = [(''x_val'', Obj 1 (VInt 100))], scope = []\<rparr>
     ''x_val'' (Obj 2 (VStr ''not found'')) = Returned (Obj 1 (VInt 100)) \<and>
   getitem \<lparr>filename = ''t.db'', data = [(''x_val'', Obj 1 (VInt 100))], scope = []\<rparr>
     ''x_val'' = Returned (Obj 1 (VInt 100)) \<and>
   map_of (data \<lparr>filename = ''t.db'', data = [(''x_val'', Obj 1 (VInt 100))], scope = []\<rparr>)
     ''missing'' = None \<and>
   get \<lparr>filename = ''t.db'', data = [(''x_val'', Obj 1 (VInt 100))], scope = []\<rparr>
     ''missing'' (Obj 2 (VStr ''not found'')) = Returned (Obj 2 (VStr ''not found'')) \<and>
   (\<exists>m. getitem \<lparr>filename = ''t.db'', data = [(''x_val'', Obj 1 (VInt 100))], scope = []\<rparr>
     ''missing'' = Raised (Exc KeyError m))"
proof -
  let ?s = "\<lparr>filename = ''t.db'', data = [(''x_val'', Obj 1 (VInt 100))], scope = []\<rparr>"
  have a: "map_of (data ?s) ''x_val'' = Some (Obj 1 (VInt 100))" by simp
  have b: "map_of (data ?s) ''missing'' = None" by simp
  from get_and_getitem [of ?s "''x_val''" "Obj 1 (VInt 100)" "Obj 2 (VStr ''not found'')"]
    get_and_getitem [of ?s "''missing''" "Obj 1 (VInt 100)" "Obj 2 (VStr ''not found'')"] a b
  show ?thesis by simp
qed

section \<open>The scope is only read\<close>

lemma except_log_store: "fst (snd (except_log cs m (out, s, w))) = s"
  by (simp add: except_log_def split: outcome.split)

lemma add_scope: "scope (fst (snd (add s w v))) = scope s"
  by (simp add: add_unfold split: option.split)

lemma add_each_scope: "scope (fst (snd (add_each s w vs))) = scope s"
proof (induction vs arbitrary: s w)
  case Nil
  then show ?case by simp
next
  case (Cons v vs)
  obtain out s1 w1 where a: "add s w v = (out, s1, w1)" by (cases "add s w v")
  with add_scope [of s w v] have s1: "scope s1 = scope s" by simp
  show ?case
  proof (cases out)
    case (Returned u)
    with a Cons.IH [of s1 w1] s1 show ?thesis by simp
  next
    case (Raised e)
    with a s1 show ?thesis by simp
  qed
qed

lemma add_multiple_scope: "scope (fst (snd (add_multiple s w vs))) = scope s"
proof -
  obtain out s1 w1 where a: "add_each s w vs = (out, s1, w1)" by (cases "add_each s w vs")
  with add_each_scope [of s w vs] have "scope s1 = scope s" by simp
  with a show ?thesis
    by (cases out) (simp_all add: add_multiple_def except_log_def)
qed

lemma save_store: "fst (snd (save s w)) = s"
  by (simp add: save_unfold except_log_store)

lemma load_scope: "scope (fst (snd (load s w))) = scope s"
  by (simp add: load_def load_body_def except_log_def split: option.split blob.split)

lemma load_filename: "filename (fst (snd (load s w))) = filename s"
  by (simp add: load_def load_body_def except_log_def split: option.split blob.split)

lemma enter_scope: "scope (fst (snd (VariableDb_enter s w))) = scope s"
proof -
  obtain out s1 w1 where a: "load s w = (out, s1, w1)" by (cases "load s w")
  with load_scope [of s w] have "scope s1 = scope s" by simp
  with a show ?thesis by (cases out) (simp_all add: VariableDb_enter_def)
qed

lemma exit_store: "fst (snd (VariableDb_exit s w)) = s"
proof -
  obtain out s1 w1 where a: "save s w = (out, s1, w1)" by (cases "save s w")
  with save_store [of s w] have "s1 = s" by simp
  with a show ?thesis by (cases out) (simp_all add: VariableDb_exit_def)
qed

text \<open>
  C9. No method writes to the scope: after \<^verbatim>\<open>add\<close>, \<^verbatim>\<open>add_by_name\<close>,
  \<^verbatim>\<open>add_multiple\<close>, \<^verbatim>\<open>delete\<close>, \<^verbatim>\<open>replace\<close>, \<^verbatim>\<open>save\<close>, \<^verbatim>\<open>load\<close>,
  \<^verbatim>\<open>clear\<close>, \<^verbatim>\<open>__enter__\<close> and \<^verbatim>\<open>__exit__\<close>, whether the call returned or
  raised, the scope of the store is the scope it had before. Name resolution
  (\<open>get_variable_name\<close>) is a function of the store that returns a name and nothing else.
\<close>

theorem scope_never_written: "scope (fst (snd (invoke c s w))) = scope s"
proof (cases c)
  case (Add v)
  then show ?thesis by (simp add: add_scope)
next
  case (AddByName n)
  then show ?thesis by (simp add: add_by_name_def split: option.split)
next
  case (AddMultiple vs)
  then show ?thesis by (simp add: add_multiple_scope)
next
  case (Delete v)
  then show ?thesis by (simp add: delete_unfold split: option.split)
next
  case (Replace v)
  then show ?thesis by (simp add: replace_unfold split: option.split)
next
  case Save
  then show ?thesis by (simp add: save_store)
next
  case Load
  then show ?thesis by (simp add: load_scope)
next
  case Clear
  then show ?thesis by (simp add: clear_def)
next
  case Enter
  then show ?thesis by (simp add: enter_scope)
next
  case Exit
  then show ?thesis by (simp add: exit_store)
qed

section \<open>\<^verbatim>\<open>add_multiple\<close>\<close>

lemma add_each_fold: "add_each s w vs = (Returned (), fold after_add vs (s, w))"
proof (induction vs arbitrary: s w)
  case Nil
  then show ?case by simp
next
  case (Cons v vs)
  obtain out s1 w1 where a: "add s w v = (out, s1, w1)" by (cases "add s w v")
  with add_returns [of s w v] have "out = Returned ()" by simp
  with a Cons.IH [of s1 w1] show ?case by (simp add: after_add_def)
qed

lemma after_add_scope: "scope (fst (after_add v sw)) = scope (fst sw)"
  by (simp add: after_add_def add_scope)

lemma fold_after_add_scope: "scope (fst (fold after_add vs sw)) = scope (fst sw)"
  by (induction vs arbitrary: sw) (simp_all add: after_add_scope)

lemma after_add_keeps:
  "map_of (data (fst sw)) k = Some x \<Longrightarrow> map_of (data (fst (after_add v sw))) k = Some x"
  by (auto simp: after_add_def add_unfold has_key_def AList.update_conv' split: option.split)

lemma fold_after_add_keeps:
  "map_of (data (fst sw)) k = Some x \<Longrightarrow>
   map_of (data (fst (fold after_add vs sw))) k = Some x"
  by (induction vs arbitrary: sw) (simp_all add: after_add_keeps)

lemma after_add_stores:
  "get_variable_name (fst sw) v = Some n \<Longrightarrow> \<not> has_key (data (fst sw)) n \<Longrightarrow>
   map_of (data (fst (after_add v sw))) n = Some v"
  by (simp add: after_add_def add_unfold AList.update_conv')

lemma after_add_has_key:
  "get_variable_name (fst sw) v = Some n \<Longrightarrow> has_key (data (fst (after_add v sw))) n"
  by (simp add: after_add_def add_unfold AList.update_conv' has_key_def)

lemma get_variable_name_scope:
  "scope t = scope s \<Longrightarrow> get_variable_name t v = get_variable_name s v"
  by (simp add: get_variable_name_def)

text \<open>
  C8. \<^verbatim>\<open>add_multiple\<close> returns normally; the store it leaves is the one obtained by
  applying \<^verbatim>\<open>add\<close> to every value of the sequence in order, none skipped, whether the
  calls before it failed or not (and the store is then marked dirty). A value whose name
  resolves and is not yet a key of the entries when its turn comes is stored under that
  name at the end; the name of every value that resolves is a key of the entries at the
  end.
\<close>

theorem add_multiple_continues:
  assumes "add_multiple s w vs = (out, s', w')"
  shows "out = Returned () \<and>
         s' = fst (fold after_add vs (s, w)) \<and>
         w' = add_to_unsaved s' (snd (fold after_add vs (s, w))) \<and>
         (\<forall>pre v post n.
            vs = pre @ v # post \<and> get_variable_name s v = Some n \<and>
            \<not> has_key (data (fst (fold after_add pre (s, w)))) n
            \<longrightarrow> map_of (data s') n = Some v) \<and>
         (\<forall>v \<in> set vs. \<forall>n. get_variable_name s v = Some n \<longrightarrow> has_key (data s') n)"
proof -
  obtain t u where f: "fold after_add vs (s, w) = (t, u)"
    by (cases "fold after_add vs (s, w)")
  have am: "add_multiple s w vs = (Returned (), t, add_to_unsaved t u)"
    using f by (simp add: add_multiple_def add_each_fold except_log_def)
  from assms [symmetric] am have "(out, s', w') = (Returned (), t, add_to_unsaved t u)"
    by (rule trans)
  then have r: "out = Returned ()" "s' = t" "w' = add_to_unsaved t u"
    by blast+
  have stored: "map_of (data s') n = Some v"
    if "vs = pre @ v # post" "get_variable_name s v = Some n"
       "\<not> has_key (data (fst (fold after_add pre (s, w)))) n" for pre v post n
  proof -
    let ?m = "fold after_add pre (s, w)"
    have "get_variable_name (fst ?m) v = Some n"
      using that(2) fold_after_add_scope [of pre "(s, w)"]
      by (simp add: get_variable_name_def)
    from after_add_stores [OF this that(3)]
    have "map_of (data (fst (fold after_add post (after_add v ?m)))) n = Some v"
      by (rule fold_after_add_keeps)
    with that(1) f r show ?thesis by simp
  qed
  have keyed: "has_key (data s') n"
    if "v \<in> set vs" "get_variable_name s v = Some n" for v n
  proof -
    from that(1) obtain pre post where sp: "vs = pre @ v # post"
      by (auto simp: in_set_conv_decomp)
    let ?m = "fold after_add pre (s, w)"
    have "get_variable_name (fst ?m) v = Some n"
      using that(2) fold_after_add_scope [of pre "(s, w)"]
      by (simp add: get_variable_name_def)
    from after_add_has_key [OF this]
    obtain x where "map_of (data (fst (after_add v ?m))) n = Some x"
      by (auto simp: has_key_def)
    then have "map_of (data (fst (fold after_add post (after_add v ?m)))) n = Some x"
      by (rule fold_after_add_keeps)
    with sp f r show ?thesis by (simp add: has_key_def)
  qed
  from r f stored keyed show ?thesis by auto
qed

theorem add_multiple_continues_witness:
  "fst (add_multiple \<lparr>filename = ''t.db'', data = [],
            scope = [(''a'', Obj 1 (VInt 1)), (''b'', Obj 2 (VInt 2))]\<rparr> fresh_process
            [Obj 3 (VInt 9), Obj 1 (VInt 1), Obj 1 (VInt 1), Obj 2 (VInt 2)]) = Returned () \<and>
   get_variable_name \<lparr>filename = ''t.db'', data = [],
            scope = [(''a'', Obj 1 (VInt 1)), (''b'', Obj 2 (VInt 2))]\<rparr> (Obj 2 (VInt 2))
     = Some ''b'' \<and>
   \<not> has_key (data (fst (fold after_add [Obj 3 (VInt 9), Obj 1 (VInt 1), Obj 1 (VInt 1)]
        (\<lparr>filename = ''t.db'', data = [],
            scope = [(''a'', Obj 1 (VInt 1)), (''b'', Obj 2 (VInt 2))]\<rparr>, fresh_process)))) ''b'' \<and>
   map_of (data (fst (snd (add_multiple \<lparr>filename = ''t.db'', data = [],
            scope = [(''a'', Obj 1 (VInt 1)), (''b'', Obj 2 (VInt 2))]\<rparr> fresh_process
            [Obj 3 (VInt 9), Obj 1 (VInt 1), Obj 1 (VInt 1), Obj 2 (VInt 2)])))) ''b''
     = Some (Obj 2 (VInt 2)) \<and>
   has_key (data (fst (snd (add_multiple \<lparr>filename = ''t.db'', data = [],
            scope = [(''a'', Obj 1 (VInt 1)), (''b'', Obj 2 (VInt 2))]\<rparr> fresh_process
            [Obj 3 (VInt 9), Obj 1 (VInt 1), Obj 1 (VInt 1), Obj 2 (VInt 2)])))) ''a''"
proof -
  let ?s = "\<lparr>filename = ''t.db'', data = [],
            scope = [(''a'', Obj 1 (VInt 1)), (''b'', Obj 2 (VInt 2))]\<rparr>"
  let ?vs = "[Obj 3 (VInt 9), Obj 1 (VInt 1), Obj 1 (VInt 1), Obj 2 (VInt 2)]"
  obtain out s' w' where r: "add_multiple ?s fresh_process ?vs = (out, s', w')"
    by (cases "add_multiple ?s fresh_process ?vs")
  note t = add_multiple_continues [OF r]
  have a: "get_variable_name ?s (Obj 2 (VInt 2)) = Some ''b''"
    by (simp add: get_variable_name_def is_same_def)
  have a': "get_variable_name ?s (Obj 1 (VInt 1)) = Some ''a''"
    by (simp add: get_variable_name_def is_same_def)
  have b: "\<not> has_key (data (fst (fold after_add
             [Obj 3 (VInt 9), Obj 1 (VInt 1), Obj 1 (VInt 1)] (?s, fresh_process)))) ''b''"
    by (simp add: after_add_def add_unfold get_variable_name_def is_same_def has_key_def)
  have c: "?vs = [Obj 3 (VInt 9), Obj 1 (VInt 1), Obj 1 (VInt 1)] @ Obj 2 (VInt 2) # []"
    by simp
  from t c a b have d: "map_of (data s') ''b'' = Some (Obj 2 (VInt 2))"
    by blast
  from t have k: "\<forall>v \<in> set ?vs. \<forall>n. get_variable_name ?s v = Some n \<longrightarrow> has_key (data s') n"
    by blast
  have m: "Obj 1 (VInt 1) \<in> set ?vs" by simp
  from k m a' have e: "has_key (data s') ''a''"
    by blast
  from t have o: "out = Returned ()" by simp
  from r have "fst (add_multiple ?s fresh_process ?vs) = out"
    and "fst (snd (add_multiple ?s fresh_process ?vs)) = s'"
    by simp_all
  with o d e have "fst (add_multiple ?s fresh_process ?vs) = Returned ()"
    and "map_of (data (fst (snd (add_multiple ?s fresh_process ?vs)))) ''b''
           = Some (Obj 2 (VInt 2))"
    and "has_key (data (fst (snd (add_multiple ?s fresh_process ?vs)))) ''a''"
    by simp_all
  with a b show ?thesis by blast
qed

section \<open>The registry of unsaved files\<close>

text \<open>
  Logging and \<^verbatim>\<open>add_to_unsaved\<close> leave the files alone; no method other than a
  \<^verbatim>\<open>save\<close> that succeeds takes a path out of the registry.
\<close>

lemma logging_error_fields [simp]:
  "unsaved_files (logging_error m e w) = unsaved_files w"
  "files (logging_error m e w) = files w"
  "unwritable (logging_error m e w) = unwritable w"
  "module_globals (logging_error m e w) = module_globals w"
  "next_oid (logging_error m e w) = next_oid w"
  by (simp_all add: logging_error_def)

lemma add_to_unsaved_fields [simp]:
  "unsaved_files (add_to_unsaved s w) = insert (filename s) (unsaved_files w)"
  "files (add_to_unsaved s w) = files w"
  "unwritable (add_to_unsaved s w) = unwritable w"
  "module_globals (add_to_unsaved s w) = module_globals w"
  by (simp_all add: add_to_unsaved_def)

lemma add_registry: "unsaved_files w \<subseteq> unsaved_files (snd (snd (add s w v)))"
  by (auto simp: add_unfold split: option.split)

lemma after_add_registry: "unsaved_files (snd sw) \<subseteq> unsaved_files (snd (after_add v sw))"
  by (simp add: after_add_def add_registry)

lemma fold_after_add_registry:
  "unsaved_files (snd sw) \<subseteq> unsaved_files (snd (fold after_add vs sw))"
proof (induction vs arbitrary: sw)
  case Nil
  then show ?case by simp
next
  case (Cons v vs)
  from after_add_registry [of sw v] Cons.IH [of "after_add v sw"]
  show ?case by auto
qed

lemma add_multiple_registry:
  "unsaved_files w \<subseteq> unsaved_files (snd (snd (add_multiple s w vs)))"
proof -
  obtain t u where f: "fold after_add vs (s, w) = (t, u)"
    by (cases "fold after_add vs (s, w)")
  with fold_after_add_registry [of "(s, w)" vs] have "unsaved_files w \<subseteq> unsaved_files u"
    by simp
  with f show ?thesis
    by (auto simp: add_multiple_def add_each_fold except_log_def)
qed

lemma load_registry: "unsaved_files w \<subseteq> unsaved_files (snd (snd (load s w)))"
  by (auto simp: load_def load_body_def except_log_def split: option.split blob.split)

lemma enter_registry: "unsaved_files w \<subseteq> unsaved_files (snd (snd (VariableDb_enter s w)))"
proof -
  obtain out s1 w1 where a: "load s w = (out, s1, w1)" by (cases "load s w")
  with load_registry [of w s] have "unsaved_files w \<subseteq> unsaved_files w1" by simp
  with a show ?thesis by (cases out) (auto simp: VariableDb_enter_def)
qed

lemma save_registry:
  "unsaved_files (snd (snd (save s w))) =
     (if filename s \<notin> unwritable w \<and> serializable (data s)
      then unsaved_files w - {filename s} else unsaved_files w)"
  by (simp add: save_unfold except_log_registry)

lemma exit_registry:
  "unsaved_files (snd (snd (VariableDb_exit s w))) =
     (if filename s \<notin> unwritable w \<and> serializable (data s)
      then unsaved_files w - {filename s} else unsaved_files w)"
proof -
  obtain out s1 w1 where a: "save s w = (out, s1, w1)" by (cases "save s w")
  with save_registry [of s w] have "unsaved_files w1 =
     (if filename s \<notin> unwritable w \<and> serializable (data s)
      then unsaved_files w - {filename s} else unsaved_files w)"
    by simp
  with a show ?thesis by (cases out) (simp_all add: VariableDb_exit_def)
qed

lemma call_keeps_registered:
  assumes "p \<in> unsaved_files w" and "p \<notin> unsaved_files (snd (snd (invoke c t w)))"
  shows "(c = Save \<or> c = Exit) \<and> filename t = p \<and> p \<notin> unwritable w \<and> serializable (data t)"
proof (cases c)
  case (Add v)
  with assms add_registry [of w t v] show ?thesis by auto
next
  case (AddByName n)
  with assms show ?thesis by (auto simp: add_by_name_def split: option.splits if_splits)
next
  case (AddMultiple vs)
  with assms add_multiple_registry [of w t vs] show ?thesis by auto
next
  case (Delete v)
  with assms show ?thesis by (auto simp: delete_unfold split: option.splits if_splits)
next
  case (Replace v)
  with assms show ?thesis by (auto simp: replace_unfold split: option.splits if_splits)
next
  case Save
  with assms show ?thesis by (auto simp: save_registry split: if_splits)
next
  case Load
  with assms load_registry [of w t] show ?thesis by auto
next
  case Clear
  with assms show ?thesis by (auto simp: clear_def)
next
  case Enter
  with assms enter_registry [of w t] show ?thesis by auto
next
  case Exit
  with assms show ?thesis by (auto simp: exit_registry split: if_splits)
qed

lemma init_registry: "unsaved_files w \<subseteq> unsaved_files (snd (VariableDb_init fname sc w))"
  by (auto simp: VariableDb_init_def split: outcome.splits scope_arg.splits option.splits)

text \<open>The constructor of \<^verbatim>\<open>variabledb.py\<close> registers the path as well.\<close>

lemma legacy_init_registers:
  "legacy_init fname sc w = (Returned s, w') \<Longrightarrow>
   check_file_name fname = Returned (filename s) \<and> data s = [] \<and>
   unsaved_files w' = unsaved_files w @ [filename s]"
  by (auto simp: legacy_init_def split: outcome.splits scope_arg.splits option.splits)

text \<open>
  C10. A constructor call that succeeds returns a store with the normalised file name and
  no entries, and has put that file name into the registry. From then on the name stays
  registered: it is still there after any construction of another store, and after any
  method call on any store, unless the call is a \<^verbatim>\<open>save\<close> (directly or from
  \<^verbatim>\<open>__exit__\<close>) on a store of that same file name that succeeds (the file can be
  written and the entries can be serialized).
\<close>

theorem init_registers_path:
  assumes "VariableDb_init fname sc w = (Returned s, w1)"
  shows "check_file_name fname = Returned (filename s) \<and> data s = [] \<and>
         unsaved_files w1 = insert (filename s) (unsaved_files w) \<and>
         (\<forall>c t w2. filename s \<in> unsaved_files w2 \<and>
                    filename s \<notin> unsaved_files (snd (snd (invoke c t w2)))
            \<longrightarrow> (c = Save \<or> c = Exit) \<and> filename t = filename s \<and>
                filename s \<notin> unwritable w2 \<and> serializable (data t)) \<and>
         (\<forall>fname' sc' w2. filename s \<in> unsaved_files w2
            \<longrightarrow> filename s \<in> unsaved_files (snd (VariableDb_init fname' sc' w2)))"
proof -
  from init_Returned [OF assms]
  have a: "check_file_name fname = Returned (filename s)" "data s = []"
    "unsaved_files w1 = insert (filename s) (unsaved_files w)"
    by simp_all
  have b: "(c = Save \<or> c = Exit) \<and> filename t = filename s \<and>
           filename s \<notin> unwritable w2 \<and> serializable (data t)"
    if "filename s \<in> unsaved_files w2 \<and>
        filename s \<notin> unsaved_files (snd (snd (invoke c t w2)))" for c t w2
    using that call_keeps_registered [of "filename s" w2 c t] by blast
  have c: "filename s \<in> unsaved_files (snd (VariableDb_init fname' sc' w2))"
    if "filename s \<in> unsaved_files w2" for fname' sc' w2
    using that init_registry [of w2 fname' sc'] by blast
  from a b c show ?thesis by blast
qed

theorem init_registers_path_witness:
  "(case VariableDb_init (VStr ''data'') None fresh_process of
      (Returned s, w1) \<Rightarrow>
        filename s = ''data.db'' \<and> data s = [] \<and> unsaved_files w1 = {''data.db''} \<and>
        ''data.db'' \<in> unsaved_files (snd (snd (invoke Clear s w1))) \<and>
        ''data.db'' \<notin> unsaved_files (snd (snd (invoke Save s w1))) \<and>
        serializable (data s)
    | (Raised e, w1) \<Rightarrow> False)"
proof -
  let ?s = "\<lparr>filename = ''data.db'', data = [], scope = module_globals fresh_process\<rparr>"
  let ?w1 = "fresh_process\<lparr>unsaved_files := {''data.db''}\<rparr>"
  have i: "VariableDb_init (VStr ''data'') None fresh_process = (Returned ?s, ?w1)"
    by (simp add: VariableDb_init_def endswith_def fresh_process_def)
  note t = init_registers_path [OF i]
  have m: "filename ?s \<in> unsaved_files ?w1" by simp
  have sv: "filename ?s \<notin> unsaved_files (snd (snd (invoke Save ?s ?w1)))"
    by (simp add: save_registry serializable_def fresh_process_def)
  from t m sv have s: "serializable (data ?s)" by blast
  have "filename ?s \<in> unsaved_files (snd (snd (invoke Clear ?s ?w1)))"
  proof (rule ccontr)
    assume "filename ?s \<notin> unsaved_files (snd (snd (invoke Clear ?s ?w1)))"
    with t m have "Clear = Save \<or> Clear = Exit" by blast
    then show False by simp
  qed
  with i t sv s show ?thesis by simp
qed

section \<open>\<^verbatim>\<open>save\<close> and the registry\<close>

text \<open>
  In \<^verbatim>\<open>variabledb.py\<close> a \<^verbatim>\<open>save\<close> that succeeds removes the first occurrence of
  the file name from the list, and a \<^verbatim>\<open>save\<close> that fails leaves the list as it is.
\<close>

lemma legacy_save_registry:
  "unsaved_files (snd (snd (legacy_save s w))) =
     (if filename s \<notin> unwritable w \<and> serializable (data s)
      then remove1 (filename s) (unsaved_files w) else unsaved_files w)"
proof (cases "serializable (data s)")
  case True
  then show ?thesis
    by (simp add: legacy_save_def legacy_save_body_def pickle_dump_serializable except_log_def
        remove1_idem)
next
  case False
  from pickle_dump_refused [OF this] obtain e where "pickle_dump (data s) = Inl e"
    by blast
  with False show ?thesis
    by (simp add: legacy_save_def legacy_save_body_def except_log_def logging_error_def)
qed

text \<open>
  C5. The claim: a \<^verbatim>\<open>save\<close> that succeeds takes the path of the store out of the
  registry, and a \<^verbatim>\<open>save\<close> that fails leaves the registry unchanged. Of
  \<^verbatim>\<open>variabledb/core.py\<close> this is \<open>save_registry\<close> above. In \<^verbatim>\<open>variabledb.py\<close> the
  constructor appends the path even when the list has it already, and \<^verbatim>\<open>save\<close> removes
  one occurrence: after two stores have been constructed on \<^verbatim>\<open>"a"\<close>, a \<^verbatim>\<open>save\<close> of
  the second succeeds and \<^verbatim>\<open>a.db\<close> is still registered.
\<close>

theorem legacy_save_keeps_duplicate:
  "(case legacy_init (VStr ''a'') None legacy_fresh_process of
      (Returned db1, w1) \<Rightarrow>
        (case legacy_init (VStr ''a'') None w1 of
           (Returned db2, w2) \<Rightarrow>
             unsaved_files w2 = [''a.db'', ''a.db''] \<and>
             (case legacy_save db2 w2 of
                (out, db3, w3) \<Rightarrow>
                  out = Returned () \<and> files w3 ''a.db'' = Some (PickledDict []) \<and>
                  unsaved_files w3 = [''a.db''] \<and>
                  filename db2 \<in> set (unsaved_files w3))
         | (Raised e, w2) \<Rightarrow> False)
    | (Raised e, w1) \<Rightarrow> False)"
  by (simp add: legacy_init_def legacy_fresh_process_def endswith_def legacy_save_def
      legacy_save_body_def pickle_dump_def serializable_def contents_def except_log_def)

section \<open>\<^verbatim>\<open>save_all_open_files\<close>\<close>

text \<open>
  In \<^verbatim>\<open>variabledb/core.py\<close> the sweep walks the copy of the registry: when every
  registered path is normalised and writable and holds a well-formed file, the sweep
  returns normally, every path of the copy has been reloaded and saved again, although
  the rounds before it removed paths from the registry, and the registry is empty at
  the end.
\<close>

lemma serializable_unpickle:
  "serializable (unpickle n kvs) = list_all (\<lambda>(k, v). picklable v) kvs"
  by (induction n kvs rule: unpickle.induct) (simp_all add: serializable_def)

lemma serializable_Nil: "serializable []"
  by (simp add: serializable_def)

lemma sweep_one_effect:
  assumes "endswith f ''.db''" and "f \<notin> unwritable w" and "well_formed (files w f)"
  shows "\<exists>w'. sweep_one f w = (Returned (), w') \<and>
           files w' = (files w)(f \<mapsto> PickledDict (reloaded (files w f))) \<and>
           unsaved_files w' = unsaved_files w - {f} \<and>
           unwritable w' = unwritable w"
proof (cases "files w f")
  case None
  with assms show ?thesis
    by (simp add: sweep_one_def VariableDb_init_def VariableDb_enter_def VariableDb_exit_def
        load_def load_body_def except_log_def caught_by_def save_unfold serializable_Nil
        contents_def reloaded_def)
next
  case (Some b)
  show ?thesis
  proof (cases b)
    case (PickledDict kvs)
    with Some assms show ?thesis
      by (simp add: sweep_one_def VariableDb_init_def VariableDb_enter_def VariableDb_exit_def
        load_def load_body_def except_log_def caught_by_def save_unfold serializable_unpickle
        contents_unpickle reloaded_def well_formed_def)
  next
    case (PickledOther v)
    with Some assms show ?thesis
      by (simp add: sweep_one_def VariableDb_init_def VariableDb_enter_def VariableDb_exit_def
        load_def load_body_def except_log_def caught_by_def save_unfold serializable_Nil
        contents_def reloaded_def)
  next
    case Truncated
    with Some assms show ?thesis by (simp add: well_formed_def)
  next
    case Corrupt
    with Some assms show ?thesis
      by (simp add: sweep_one_def VariableDb_init_def VariableDb_enter_def VariableDb_exit_def
        load_def load_body_def except_log_def caught_by_def save_unfold serializable_Nil
        contents_def reloaded_def)
  qed
qed

lemma well_formed_reloaded: "well_formed b \<Longrightarrow> well_formed (Some (PickledDict (reloaded b)))"
  by (auto simp: well_formed_def reloaded_def split: option.splits blob.splits)

lemma reloaded_idem: "reloaded (Some (PickledDict (reloaded b))) = reloaded b"
  by (simp add: reloaded_def)

lemma sweep_paths_effect:
  assumes "\<forall>p \<in> set ps. endswith p ''.db'' \<and> p \<notin> unwritable w \<and> well_formed (files w p)"
  shows "\<exists>w'. sweep_paths ps w = (Returned (), w') \<and>
           (\<forall>p. files w' p =
              (if p \<in> set ps then Some (PickledDict (reloaded (files w p))) else files w p)) \<and>
           unsaved_files w' = unsaved_files w - set ps"
  using assms
proof (induction ps arbitrary: w)
  case Nil
  then show ?case by simp
next
  case (Cons f fs)
  from Cons.prems have "endswith f ''.db''" "f \<notin> unwritable w" "well_formed (files w f)"
    by simp_all
  from sweep_one_effect [OF this] obtain w1 where
    s1: "sweep_one f w = (Returned (), w1)" and
    f1: "files w1 = (files w)(f \<mapsto> PickledDict (reloaded (files w f)))" and
    u1: "unsaved_files w1 = unsaved_files w - {f}" and
    x1: "unwritable w1 = unwritable w"
    by blast
  have "\<forall>p \<in> set fs. endswith p ''.db'' \<and> p \<notin> unwritable w1 \<and> well_formed (files w1 p)"
    using Cons.prems f1 x1 by (auto simp: well_formed_reloaded)
  from Cons.IH [OF this] obtain w' where
    s2: "sweep_paths fs w1 = (Returned (), w')" and
    f2: "\<forall>p. files w' p =
          (if p \<in> set fs then Some (PickledDict (reloaded (files w1 p))) else files w1 p)" and
    u2: "unsaved_files w' = unsaved_files w1 - set fs"
    by blast
  from s1 s2 have "sweep_paths (f # fs) w = (Returned (), w')" by simp
  moreover from f1 f2 have "\<forall>p. files w' p =
      (if p \<in> set (f # fs) then Some (PickledDict (reloaded (files w p))) else files w p)"
    by (auto simp: reloaded_idem)
  moreover from u1 u2 have "unsaved_files w' = unsaved_files w - set (f # fs)" by auto
  ultimately show ?case by blast
qed

lemma save_all_open_files_visits_snapshot:
  assumes "set snapshot = unsaved_files w"
    and "\<forall>p \<in> unsaved_files w. endswith p ''.db'' \<and> p \<notin> unwritable w \<and> well_formed (files w p)"
  shows "\<exists>w'. save_all_open_files snapshot w = (Returned (), w') \<and>
           unsaved_files w' = {} \<and>
           (\<forall>p \<in> set snapshot. files w' p = Some (PickledDict (reloaded (files w p))))"
proof -
  from assms have "\<forall>p \<in> set snapshot. endswith p ''.db'' \<and> p \<notin> unwritable w \<and> well_formed (files w p)"
    by simp
  from sweep_paths_effect [OF this] assms(1) show ?thesis
    by (auto simp: save_all_open_files_def)
qed

text \<open>
  C6. The claim: \<^verbatim>\<open>save_all_open_files\<close> iterates over a snapshot of the registry, so
  that the removals made by the saves skip no path. Of \<^verbatim>\<open>variabledb/core.py\<close> this is
  \<open>save_all_open_files_visits_snapshot\<close> above. \<^verbatim>\<open>variabledb.py\<close> iterates over the
  list itself: with \<^verbatim>\<open>a.db\<close> and \<^verbatim>\<open>b.db\<close> registered, the round of \<^verbatim>\<open>a.db\<close>
  shortens the list to \<^verbatim>\<open>["b.db"]\<close>, the iterator stands at index 1, and the loop ends:
  \<^verbatim>\<open>b.db\<close> is never written and stays registered.
\<close>

theorem legacy_sweep_skips_path:
  "(case legacy_init (VStr ''a'') None legacy_fresh_process of
      (Returned db1, w1) \<Rightarrow>
        (case legacy_init (VStr ''b'') None w1 of
           (Returned db2, w2) \<Rightarrow>
             unsaved_files w2 = [''a.db'', ''b.db''] \<and>
             (case legacy_save_all_open_files 2 w2 of
                Some (out, w3) \<Rightarrow>
                  out = Returned () \<and> files w3 ''a.db'' = Some (PickledDict []) \<and>
                  files w3 ''b.db'' = None \<and> unsaved_files w3 = [''b.db'']
              | None \<Rightarrow> False)
         | (Raised e, w2) \<Rightarrow> False)
    | (Raised e, w1) \<Rightarrow> False)"
  by (simp add: legacy_init_def legacy_fresh_process_def endswith_def legacy_save_def
      legacy_save_body_def pickle_dump_def serializable_def contents_def except_log_def
      legacy_save_all_open_files_def legacy_sweep_one_def legacy_enter_def legacy_exit_def
      legacy_add_to_unsaved_def numeral_2_eq_2)

text \<open>
  The loop of \<^verbatim>\<open>variabledb.py\<close> need not end. When the only registered path cannot be
  written and has no file, every round appends the path once more and removes nothing:
  the index never reaches the length of the list, whatever the fuel.
\<close>

lemma legacy_round_unwritable:
  assumes "unsaved_files w = replicate (Suc n) p" and "endswith p ''.db''"
    and "p \<in> unwritable w" and "files w p = None"
  shows "\<exists>w'. legacy_sweep_one p w = (Returned (), w') \<and>
           unsaved_files w' = replicate (Suc (Suc n)) p \<and>
           unwritable w' = unwritable w \<and> files w' = files w"
proof -
  have "replicate (Suc n) p @ [p] = replicate (Suc (Suc n)) p"
    by (simp add: replicate_append_same)
  with assms show ?thesis
    by (simp add: legacy_sweep_one_def legacy_init_def legacy_enter_def
        legacy_add_to_unsaved_def legacy_save_def legacy_save_body_def legacy_exit_def
        except_log_def caught_by_def logging_error_def)
qed

lemma legacy_sweep_never_ends:
  assumes "unsaved_files w = replicate n p" and "i < n" and "endswith p ''.db''"
    and "p \<in> unwritable w" and "files w p = None"
  shows "legacy_sweep fuel i w = None"
  using assms
proof (induction fuel arbitrary: w n i)
  case 0
  then show ?case by simp
next
  case (Suc fuel)
  from Suc.prems(1,2) obtain m where n: "n = Suc m" by (cases n) auto
  from Suc.prems(1,2) have at: "unsaved_files w ! i = p" by simp
  from legacy_round_unwritable [OF Suc.prems(1) [unfolded n] Suc.prems(3,4,5)]
  obtain w' where r: "legacy_sweep_one p w = (Returned (), w')"
    and u: "unsaved_files w' = replicate (Suc n) p"
    and x: "unwritable w' = unwritable w" and f: "files w' = files w"
    using n by blast
  from Suc.prems x f have "p \<in> unwritable w'" "files w' p = None" by simp_all
  from Suc.IH [OF u _ Suc.prems(3) this] Suc.prems(2)
  have "legacy_sweep fuel (Suc i) w' = None" by simp
  with Suc.prems(1,2) at r show ?case by simp
qed

end
